theory Spec2Isabelle
  imports Complex_Main "HOL-Library.Word" "HOL-Library.Multiset"
begin

section \<open>The SPTP client orchestrator (ptp/sptp/client/sptp.go)\<close>

text \<open>
  A shallow embedding of \<^verbatim>\<open>SPTP.init\<close>, \<^verbatim>\<open>SPTP.RunListener\<close>,
  \<^verbatim>\<open>SPTP.handleExchangeError\<close>, \<^verbatim>\<open>SPTP.processResults\<close> and
  \<^verbatim>\<open>SPTP.runInternal\<close>.

  The collaborators that live in other files (the servo, the clock, the per-peer backoff,
  \<^verbatim>\<open>bmca\<close>, the per-peer exchange \<^verbatim>\<open>Client.RunOnce\<close>) are Go interfaces or
  functions of other packages; they are parameters of the model: records of functions
  over an abstract state. Every call the orchestrator makes to a collaborator, to the
  stats sink or to the logger is also appended to a chronological trace of events.
\<close>

subsection \<open>Basic types\<close>

text \<open>
  \<^verbatim>\<open>time.Duration\<close> and the other 64-bit integers are \<open>64 word\<close>: \<open>+\<close>, \<open>*\<close>
  and unary minus wrap as they do in Go, and comparisons of durations are signed.
  A \<^verbatim>\<open>time.Time\<close> is the number of nanoseconds since the zero \<^verbatim>\<open>Time\<close>,
  so that \<^verbatim>\<open>IsZero\<close> is equality with 0.
  A finite \<^verbatim>\<open>float64\<close> is the rational number it denotes.
\<close>

type_synonym duration = "64 word"
type_synonym time = int
type_synonym float64 = rat
type_synonym ClockIdentity = "64 word"

definition IsZero :: "time \<Rightarrow> bool" where
  "IsZero t = (t = 0)"

definition maxDuration :: int where
  "maxDuration = 2 ^ 63 - 1"

definition minDuration :: int where
  "minDuration = - (2 ^ 63)"

text \<open>\<^verbatim>\<open>Time.Sub\<close> saturates at the largest and the smallest duration.\<close>

definition Sub :: "time \<Rightarrow> time \<Rightarrow> duration" where
  "Sub t u =
     (let d = t - u in
      if d > maxDuration then word_of_int maxDuration
      else if d < minDuration then word_of_int minDuration
      else word_of_int d)"

text \<open>
  \<^verbatim>\<open>Time.UnixNano\<close>: nanoseconds since 1970, as an \<^verbatim>\<open>int64\<close>; the zero
  \<^verbatim>\<open>Time\<close> is 62135596800 seconds before 1970.
\<close>

definition UnixNano :: "time \<Rightarrow> 64 word" where
  "UnixNano t = word_of_int (t - 62135596800 * 1000000000)"

subsection \<open>Errors\<close>

text \<open>
  A Go \<^verbatim>\<open>error\<close> is the sentinel \<^verbatim>\<open>errBackoff\<close>, an error wrapping another
  one (\<^verbatim>\<open>fmt.Errorf("...: %w", err)\<close>), or any other error. \<^verbatim>\<open>errors.Is\<close> walks
  the chain of wrapped errors.
\<close>

datatype err = errBackoff | errWrap string err | errOther string

fun errors_Is :: "err \<Rightarrow> err \<Rightarrow> bool" where
  "errors_Is (errWrap m e) target = (errWrap m e = target \<or> errors_Is e target)"
| "errors_Is e target = (e = target)"

text \<open>A nil pointer dereference is the only run-time panic of the modelled code.\<close>

datatype panic = NilDereference

subsection \<open>Results of an exchange\<close>

record Announce =
  GrandmasterIdentity :: ClockIdentity
  AnnounceBody :: nat

record MeasurementResult =
  Delay :: duration
  Offset :: duration
  Timestamp :: time
  Announce :: Announce

record RunResult =
  Server :: string
  Measurement :: "MeasurementResult option"
  Error :: "err option"

record Config =
  Interval :: duration
  ExchangeTimeout :: duration
  FirstStepThreshold :: duration

subsection \<open>Collaborators\<close>

datatype servo_state = StateInit | StateJump | StateLocked | StateFilter

text \<open>The \<^verbatim>\<open>Servo\<close> interface of sptp.go, over the servo's own state \<open>'p\<close>.\<close>

record 'p Servo =
  SyncInterval :: "'p \<Rightarrow> float64 \<Rightarrow> 'p"
  Sample :: "'p \<Rightarrow> 64 word \<Rightarrow> 64 word \<Rightarrow> (float64 \<times> servo_state) \<times> 'p"
  SetMaxFreq :: "'p \<Rightarrow> float64 \<Rightarrow> 'p"
  MeanFreq :: "'p \<Rightarrow> float64"

text \<open>
  The \<^verbatim>\<open>Clock\<close> interface, over the clock's state \<open>'c\<close>. \<open>isSysClock\<close> is
  the type assertion \<^verbatim>\<open>p.clock.(*SysClock)\<close>, \<open>SetSync\<close> the method only the
  system clock has.
\<close>

record 'c Clock =
  AdjFreqPPB :: "'c \<Rightarrow> float64 \<Rightarrow> err option \<times> 'c"
  Step :: "'c \<Rightarrow> duration \<Rightarrow> err option \<times> 'c"
  FrequencyPPB :: "'c \<Rightarrow> err + float64"
  MaxFreqPPB :: "'c \<Rightarrow> err + float64"
  isSysClock :: "'c \<Rightarrow> bool"
  SetSync :: "'c \<Rightarrow> err option \<times> 'c"

text \<open>The methods of \<^verbatim>\<open>*backoff\<close>, over the backoff's state \<open>'b\<close>.\<close>

record 'b Backoff =
  active :: "'b \<Rightarrow> bool"
  backoff_tick :: "'b \<Rightarrow> int \<times> 'b"
  bump :: "'b \<Rightarrow> int \<times> 'b"
  reset :: "'b \<Rightarrow> 'b"

text \<open>
  The implementations the orchestrator is linked with: the three interfaces and
  \<^verbatim>\<open>bmca\<close>, which picks the best announce of a list, given the local priorities,
  or none.
\<close>

record ('p, 'c, 'b) impl =
  servo :: "'p Servo"
  clk :: "'c Clock"
  bo :: "'b Backoff"
  bmca :: "Announce list \<Rightarrow> (ClockIdentity \<rightharpoonup> int) \<Rightarrow> Announce option"

subsection \<open>Events\<close>

datatype level = LDebug | LInfo | LWarning | LError

text \<open>
  \<open>Log\<close> carries the level and the format string of a logrus call (\<open>LogF\<close>
  also the number it prints);
  \<open>SetGMStats\<close> carries the arguments of \<^verbatim>\<open>runResultToStats\<close>, whose result is
  handed to the stats sink.
\<close>

datatype event =
    Log level string
  | LogF level string float64
  | SetCounter string "64 word"
  | SetGMStats string RunResult int bool
  | CallBackoffReset string
  | CallBackoffTick string
  | CallBackoffBump string
  | CallSample "64 word" "64 word"
  | CallSyncInterval float64
  | CallSetMaxFreq float64
  | CallMeanFreq
  | CallStep duration
  | CallAdjFreqPPB float64
  | CallSetSync
  | Spawn string duration

subsection \<open>The orchestrator's state\<close>

text \<open>
  A packet handed to a session and the session itself. Of a \<^verbatim>\<open>Client\<close> only the
  inbound channel matters here; it is the list of the packets sent to it and not yet
  taken, oldest first. Its capacity is set where the client is built, outside this file,
  and is left open: a send appends.
\<close>

record inPacket =
  data :: "8 word list"
  ts :: time

record Client =
  inChan :: "inPacket list"

text \<open>
  The map \<^verbatim>\<open>clients\<close> is the list of its entries, keys distinct; the maps that are
  only read at a key are partial functions.
\<close>

record ('p, 'c, 'b) SPTP =
  pi_servo :: 'p
  clock :: 'c
  bestGM :: string
  clients :: "(string \<times> Client) list"
  priorities :: "string \<rightharpoonup> int"
  backoff :: "string \<rightharpoonup> 'b"
  lastTick :: time
  trace :: "event list"

definition emit :: "event list \<Rightarrow> ('p, 'c, 'b) SPTP \<Rightarrow> ('p, 'c, 'b) SPTP" where
  "emit es s = s\<lparr>trace := trace s @ es\<rparr>"

text \<open>Reading a Go map of ints at a missing key gives 0.\<close>

definition priority_of :: "('p, 'c, 'b) SPTP \<Rightarrow> string \<Rightarrow> int" where
  "priority_of s addr = (case priorities s addr of None \<Rightarrow> 0 | Some n \<Rightarrow> n)"

subsection \<open>handleExchangeError\<close>

text \<open>
  \<^verbatim>\<open>p.backoff[addr]\<close> at a missing key is a nil \<^verbatim>\<open>*backoff\<close>, and calling a
  method on it dereferences nil.
\<close>

definition handleExchangeError ::
  "('p, 'c, 'b) impl \<Rightarrow> string \<Rightarrow> err \<Rightarrow> ('p, 'c, 'b) SPTP \<Rightarrow> panic + ('p, 'c, 'b) SPTP" where
  "handleExchangeError im addr e s =
     (if errors_Is e errBackoff then
        (case backoff s addr of
           None \<Rightarrow> Inl NilDereference
         | Some b \<Rightarrow>
             (let (d, b') = backoff_tick (bo im) b in
              Inr (emit [CallBackoffTick addr, Log LDebug ''backoff %s: %d seconds'']
                     (s\<lparr>backoff := (backoff s)(addr \<mapsto> b')\<rparr>))))
      else
        (let s1 = emit [Log LError ''result %s: %+v''] s in
         case backoff s1 addr of
           None \<Rightarrow> Inl NilDereference
         | Some b \<Rightarrow>
             (let (d, b') = bump (bo im) b;
                  s2 = emit [CallBackoffBump addr] (s1\<lparr>backoff := (backoff s1)(addr \<mapsto> b')\<rparr>)
              in Inr (if d \<noteq> 0 then emit [Log LWarning ''backoff %s: extended by %d''] s2
                      else s2))))"

subsection \<open>float64 arithmetic of the availability percentage\<close>

text \<open>
  \<^verbatim>\<open>int64((float64(gmsAvailable)/float64(gmsTotal))*100)\<close> is IEEE 754 binary64
  arithmetic: every operation yields the exact result rounded to the nearest number with
  a 53-bit significand, ties to even. The values of this computation are 0 or lie between
  \<open>2 ^ -63\<close> and \<open>2 ^ 63\<close>, far from overflow and from the subnormal numbers, so the
  exponent is not bounded in the model.
\<close>

definition pow2 :: "int \<Rightarrow> rat" where
  "pow2 k = (if 0 \<le> k then 2 ^ nat k else 1 / 2 ^ nat (- k))"

fun bitlen :: "nat \<Rightarrow> nat" where
  "bitlen n = (if n = 0 then 0 else Suc (bitlen (n div 2)))"

text \<open>The integer \<open>k\<close> with \<open>2 ^ k \<le> q < 2 ^ (k + 1)\<close>, for \<open>q > 0\<close>.\<close>

definition ilog2 :: "rat \<Rightarrow> int" where
  "ilog2 q =
     (let (n, d) = quotient_of q;
          k = int (bitlen (nat n)) - int (bitlen (nat d))
      in if pow2 k \<le> q then k else k - 1)"

definition round_even :: "rat \<Rightarrow> int" where
  "round_even x =
     (let m = \<lfloor>x\<rfloor>; f = x - of_int m in
      if f < 1 / 2 then m
      else if 1 / 2 < f then m + 1
      else if even m then m else m + 1)"

definition f64_round :: "rat \<Rightarrow> float64" where
  "f64_round q =
     (if q = 0 then 0
      else (let e = ilog2 \<bar>q\<bar> - 52 in
            sgn q * of_int (round_even (\<bar>q\<bar> / pow2 e)) * pow2 e))"

definition f64_of_int :: "int \<Rightarrow> float64" where
  "f64_of_int n = f64_round (of_int n)"

definition f64_div :: "float64 \<Rightarrow> float64 \<Rightarrow> float64" where
  "f64_div x y = f64_round (x / y)"

definition f64_mul :: "float64 \<Rightarrow> float64 \<Rightarrow> float64" where
  "f64_mul x y = f64_round (x * y)"

text \<open>Conversion of a float to \<^verbatim>\<open>int64\<close> drops the fraction (towards zero).\<close>

definition int64_of_f64 :: "float64 \<Rightarrow> 64 word" where
  "int64_of_f64 x = word_of_int (if 0 \<le> x then \<lfloor>x\<rfloor> else \<lceil>x\<rceil>)"

definition available_pct :: "nat \<Rightarrow> nat \<Rightarrow> 64 word" where
  "available_pct gmsAvailable gmsTotal =
     (if gmsTotal \<noteq> 0
      then int64_of_f64 (f64_mul (f64_div (f64_of_int (int gmsAvailable))
                                          (f64_of_int (int gmsTotal))) 100)
      else 0)"

subsection \<open>processResults\<close>

text \<open>The four accumulators of the loop over the result map.\<close>

record acc =
  gmsAvailable :: nat
  announces :: "Announce list"
  idsToClients :: "ClockIdentity \<rightharpoonup> string"
  localPrioMap :: "ClockIdentity \<rightharpoonup> int"

definition acc0 :: acc where
  "acc0 = \<lparr>gmsAvailable = 0, announces = [], idsToClients = Map.empty,
           localPrioMap = Map.empty\<rparr>"

text \<open>
  The body of \<^verbatim>\<open>for addr, res := range results\<close>, for one entry. The result map is
  the list of its entries in the order in which the loop visits them (Go leaves the order
  open), so its keys are distinct.
\<close>

definition visit ::
  "('p, 'c, 'b) impl \<Rightarrow> string \<times> RunResult \<Rightarrow> acc \<times> ('p, 'c, 'b) SPTP
     \<Rightarrow> panic + (acc \<times> ('p, 'c, 'b) SPTP)" where
  "visit im entry st =
     (let (addr, res) = entry; (a, s) = st;
          s1 = emit [SetGMStats addr res (priority_of s addr) (addr = bestGM s)] s
      in case Error res of
           Some e \<Rightarrow>
             (case handleExchangeError im addr e s1 of
                Inl p \<Rightarrow> Inl p
              | Inr s2 \<Rightarrow> Inr (a, s2))
         | None \<Rightarrow>
             (case backoff s1 addr of
                None \<Rightarrow> Inl NilDereference
              | Some b \<Rightarrow>
                  (let s2 = emit [CallBackoffReset addr, Log LDebug ''result %s: %+v'']
                              (s1\<lparr>backoff := (backoff s1)(addr \<mapsto> reset (bo im) b)\<rparr>)
                   in case Measurement res of
                        None \<Rightarrow>
                          Inr (a, emit [Log LError ''result for %s is missing Measurement''] s2)
                      | Some m \<Rightarrow>
                          Inr (\<lparr>gmsAvailable = gmsAvailable a + 1,
                                announces = announces a @ [Announce m],
                                idsToClients =
                                  (idsToClients a)(GrandmasterIdentity (Announce m) \<mapsto> addr),
                                localPrioMap =
                                  (localPrioMap a)(GrandmasterIdentity (Announce m) \<mapsto>
                                     priority_of s2 addr)\<rparr>, s2))))"

fun results_loop ::
  "('p, 'c, 'b) impl \<Rightarrow> (string \<times> RunResult) list \<Rightarrow> acc \<times> ('p, 'c, 'b) SPTP
     \<Rightarrow> panic + (acc \<times> ('p, 'c, 'b) SPTP)" where
  "results_loop im [] st = Inr st"
| "results_loop im (entry # rest) st =
     (case visit im entry st of
        Inl p \<Rightarrow> Inl p
      | Inr st' \<Rightarrow> results_loop im rest st')"

text \<open>The first lines of processResults: the tick duration, from the second tick on.\<close>

definition tick_duration :: "Config \<Rightarrow> time \<Rightarrow> ('p, 'c, 'b) SPTP \<Rightarrow> ('p, 'c, 'b) SPTP" where
  "tick_duration cfg now s =
     (if \<not> IsZero (lastTick s) then
        (let tickDuration = Sub now (lastTick s);
             s1 = emit [Log LDebug ''tick took %vms sys time''] s;
             s2 = (if 110 * Interval cfg <s 100 * tickDuration
                      \<or> 100 * tickDuration <s 90 * Interval cfg
                   then emit [Log LWarning
                     ''tick took %vms, which is outside of expected +-10%% from the interval %vms''] s1
                   else s1)
         in emit [SetCounter ''ptp.sptp.tick_duration_ns'' tickDuration] s2)
      else s)"

text \<open>The servo sample of the winner and the dispatch on the servo's state.\<close>

definition discipline ::
  "('p, 'c, 'b) impl \<Rightarrow> MeasurementResult \<Rightarrow> ('p, 'c, 'b) SPTP \<Rightarrow> ('p, 'c, 'b) SPTP" where
  "discipline im bm s =
     (let ((freqAdj, state), p') =
            Sample (servo im) (pi_servo s) (Offset bm) (UnixNano (Timestamp bm));
          s1 = emit [CallSample (Offset bm) (UnixNano (Timestamp bm)),
                     Log LInfo ''offset %10d s%d freq %+7.0f path delay %10d'']
                 (s\<lparr>pi_servo := p'\<rparr>)
      in case state of
           StateJump \<Rightarrow>
             (let (r, c') = Step (clk im) (clock s1) (- 1 * Offset bm);
                  s2 = emit [CallStep (- 1 * Offset bm)] (s1\<lparr>clock := c'\<rparr>)
              in if r \<noteq> None then emit [Log LError ''failed to step freq by %v: %v''] s2
                 else s2)
         | StateLocked \<Rightarrow>
             (let (r, c') = AdjFreqPPB (clk im) (clock s1) (- 1 * freqAdj);
                  s2 = emit [CallAdjFreqPPB (- 1 * freqAdj)] (s1\<lparr>clock := c'\<rparr>);
                  s3 = (if r \<noteq> None
                        then emit [Log LError ''failed to adjust freq to %v: %v''] s2
                        else s2)
              in if isSysClock (clk im) (clock s3) then
                   (let (r', c'') = SetSync (clk im) (clock s3);
                        s4 = emit [CallSetSync] (s3\<lparr>clock := c''\<rparr>)
                    in if r' \<noteq> None
                       then emit [Log LError ''failed to set sys clock sync state''] s4
                       else s4)
                 else s3)
         | _ \<Rightarrow> s1)"

definition processResults ::
  "('p, 'c, 'b) impl \<Rightarrow> Config \<Rightarrow> time \<Rightarrow> (string \<times> RunResult) list
     \<Rightarrow> ('p, 'c, 'b) SPTP \<Rightarrow> panic + ('p, 'c, 'b) SPTP" where
  "processResults im cfg now results s =
     (let s1 = (tick_duration cfg now s)\<lparr>lastTick := now\<rparr>;
          gmsTotal = length results
      in case results_loop im results (acc0, s1) of
           Inl p \<Rightarrow> Inl p
         | Inr (a, s2) \<Rightarrow>
             (let s3 = emit [SetCounter ''ptp.sptp.gms.total'' (word_of_nat gmsTotal),
                             SetCounter ''ptp.sptp.gms.available_pct''
                               (available_pct (gmsAvailable a) gmsTotal)] s2
              in case bmca im (announces a) (localPrioMap a) of
                   None \<Rightarrow>
                     Inr ((emit [Log LWarning ''no Best Master selected''] s3)\<lparr>bestGM := []\<rparr>)
                 | Some best \<Rightarrow>
                     (let bestAddr = (case idsToClients a (GrandmasterIdentity best) of
                                        None \<Rightarrow> [] | Some x \<Rightarrow> x)
                      in case map_of results bestAddr of
                           None \<Rightarrow> Inl NilDereference
                         | Some r \<Rightarrow>
                             (case Measurement r of
                                None \<Rightarrow> Inl NilDereference
                              | Some bm \<Rightarrow>
                                  (let s4 = (if bestGM s3 \<noteq> bestAddr
                                             then (emit [Log LWarning
                                                     ''new best master selected: %q (%s)''] s3)
                                                    \<lparr>bestGM := bestAddr\<rparr>
                                             else s3);
                                       s5 = emit [Log LDebug ''best master %q (%s)''] s4
                                   in Inr (discipline im bm s5))))))"

subsection \<open>runInternal\<close>

text \<open>
  What one tick takes from its surroundings: the reading of \<^verbatim>\<open>time.Now()\<close> in
  processResults, what \<^verbatim>\<open>RunOnce\<close> returns for each peer it is run for, and the
  orders in which the two \<^verbatim>\<open>range\<close> loops visit their maps (each a rearrangement
  of the entries).
\<close>

record tick_env =
  now :: time
  RunOnce :: "string \<Rightarrow> RunResult"
  range_clients :: "(string \<times> Client) list \<Rightarrow> (string \<times> Client) list"
  range_results :: "(string \<times> RunResult) list \<Rightarrow> (string \<times> RunResult) list"

text \<open>
  The loop over the clients in \<^verbatim>\<open>tick\<close>. \<^verbatim>\<open>eg.Go\<close> starts the exchange of a
  peer as a task of its own (the event \<open>Spawn\<close>, with the timeout the task passes to
  \<^verbatim>\<open>RunOnce\<close>); the task stores what \<^verbatim>\<open>RunOnce\<close> returns under the peer's
  address. The tasks write distinct keys under a lock, so the map after
  \<^verbatim>\<open>eg.Wait()\<close> does not depend on how they interleave.
\<close>

fun fanout ::
  "('p, 'c, 'b) impl \<Rightarrow> Config \<Rightarrow> tick_env \<Rightarrow> (string \<times> Client) list
     \<Rightarrow> (string \<times> RunResult) list \<times> ('p, 'c, 'b) SPTP
     \<Rightarrow> panic + ((string \<times> RunResult) list \<times> ('p, 'c, 'b) SPTP)" where
  "fanout im cfg env [] st = Inr st"
| "fanout im cfg env ((addr, c) # rest) (results, s) =
     (case backoff s addr of
        None \<Rightarrow> Inl NilDereference
      | Some b \<Rightarrow>
          if active (bo im) b
          then fanout im cfg env rest
                 (results @ [(addr, \<lparr>Server = addr, Measurement = None,
                                      Error = Some errBackoff\<rparr>)], s)
          else fanout im cfg env rest
                 (results @ [(addr, RunOnce env addr)],
                  emit [Spawn addr (ExchangeTimeout cfg)] s))"

text \<open>
  The tasks always return nil, so \<^verbatim>\<open>eg.Wait()\<close> does and nothing is logged
  before processResults.
\<close>

definition tick ::
  "('p, 'c, 'b) impl \<Rightarrow> Config \<Rightarrow> tick_env \<Rightarrow> ('p, 'c, 'b) SPTP
     \<Rightarrow> panic + ('p, 'c, 'b) SPTP" where
  "tick im cfg env s =
     (case fanout im cfg env (range_clients env (clients s)) ([], s) of
        Inl p \<Rightarrow> Inl p
      | Inr (results, s1) \<Rightarrow>
          processResults im cfg (now env) (range_results env results) s1)"

text \<open>
  One round of the \<^verbatim>\<open>select\<close>: the context is done and \<^verbatim>\<open>ctx.Err()\<close> is the
  given error, or the timer's channel delivers at the given time, and the tick that
  follows runs in the given surroundings.
\<close>

datatype select_event = CtxDone err | TimerC time tick_env

text \<open>
  How a run of the loop stands after a list of rounds: it returned an error, it crashed,
  it waits in \<^verbatim>\<open>select\<close> with the timer set to expire at the given time, or the
  list is not a run at all because the timer would have delivered before it expired.
\<close>

datatype ('p, 'c, 'b) run =
    Returned err "('p, 'c, 'b) SPTP"
  | Crashed panic
  | Waiting time "('p, 'c, 'b) SPTP"
  | NotExpired

definition on_cancel :: "('p, 'c, 'b) impl \<Rightarrow> ('p, 'c, 'b) SPTP \<Rightarrow> ('p, 'c, 'b) SPTP" where
  "on_cancel im s =
     (let s1 = emit [Log LDebug ''cancelled main loop''] s;
          freqAdj = MeanFreq (servo im) (pi_servo s1);
          s2 = emit [CallMeanFreq, Log LInfo ''Existing, setting freq to: %v''] s1;
          (r, c') = AdjFreqPPB (clk im) (clock s2) (- 1 * freqAdj);
          s3 = emit [CallAdjFreqPPB (- 1 * freqAdj)] (s2\<lparr>clock := c'\<rparr>)
      in if r \<noteq> None then emit [Log LError ''failed to adjust freq to %v: %v''] s3 else s3)"

text \<open>
  The \<^verbatim>\<open>for\<close>/\<^verbatim>\<open>select\<close> loop, from a timer set to expire at \<open>deadline\<close>.
  \<^verbatim>\<open>timer.Reset(p.cfg.Interval)\<close> is called at the time the channel delivered.
\<close>

fun run_loop ::
  "('p, 'c, 'b) impl \<Rightarrow> Config \<Rightarrow> select_event list \<Rightarrow> time \<Rightarrow> ('p, 'c, 'b) SPTP
     \<Rightarrow> ('p, 'c, 'b) run" where
  "run_loop im cfg [] deadline s = Waiting deadline s"
| "run_loop im cfg (CtxDone e # evs) deadline s = Returned e (on_cancel im s)"
| "run_loop im cfg (TimerC t env # evs) deadline s =
     (if t < deadline then NotExpired
      else case tick im cfg env s of
             Inl p \<Rightarrow> Crashed p
           | Inr s' \<Rightarrow> run_loop im cfg evs (t + sint (Interval cfg)) s')"

text \<open>
  \<^verbatim>\<open>Duration.Seconds\<close>: the whole seconds plus the remaining nanoseconds over
  \<open>10\<^sup>9\<close>, in float64 arithmetic; integer division truncates towards zero.
\<close>

definition Seconds :: "duration \<Rightarrow> float64" where
  "Seconds d =
     (let i = sint d;
          sec = sgn i * (\<bar>i\<bar> div 1000000000);
          nsec = sgn i * (\<bar>i\<bar> mod 1000000000)
      in f64_round (f64_of_int sec + f64_div (f64_of_int nsec) 1000000000))"

text \<open>runInternal, entered at the time \<open>start\<close>: \<^verbatim>\<open>time.NewTimer(0)\<close>.\<close>

definition runInternal ::
  "('p, 'c, 'b) impl \<Rightarrow> Config \<Rightarrow> time \<Rightarrow> select_event list \<Rightarrow> ('p, 'c, 'b) SPTP
     \<Rightarrow> ('p, 'c, 'b) run" where
  "runInternal im cfg start evs s =
     (let s1 = emit [CallSyncInterval (Seconds (Interval cfg))]
                 (s\<lparr>pi_servo := SyncInterval (servo im) (pi_servo s) (Seconds (Interval cfg))\<rparr>)
      in run_loop im cfg evs (start + 0) s1)"

subsection \<open>init: the clock and the servo\<close>

text \<open>
  What init uses of the packages \<^verbatim>\<open>servo\<close> and \<^verbatim>\<open>phc\<close>: the default servo
  configuration, the constructor of the PI servo (from a configuration and a first
  frequency), the constructor of its filter, which attaches the filter to the servo, and
  the constant \<^verbatim>\<open>phc.DefaultMaxClockFreqPPB\<close>.
\<close>

record ServoConfig =
  FirstUpdate :: bool
  FirstStepThreshold :: "64 word"

record 'p ServoPkg =
  DefaultServoConfig :: ServoConfig
  NewPiServo :: "ServoConfig \<Rightarrow> float64 \<Rightarrow> 'p"
  NewPiServoFilter :: "'p \<Rightarrow> 'p"
  DefaultMaxClockFreqPPB :: float64

text \<open>
  The part of init that follows the choice of the clock (from
  \<^verbatim>\<open>freq, err := p.clock.FrequencyPPB()\<close> to the end): it returns the error, or
  the servo stored in \<^verbatim>\<open>p.pi\<close>, with the events of the part.
\<close>

definition init ::
  "'p ServoPkg \<Rightarrow> ('p, 'c, 'b) impl \<Rightarrow> Config \<Rightarrow> 'c \<Rightarrow> err + ('p \<times> event list)" where
  "init pkg im cfg c =
     (case FrequencyPPB (clk im) c of
        Inl e \<Rightarrow> Inl e
      | Inr freq \<Rightarrow>
          (let servoCfg = DefaultServoConfig pkg;
               servoCfg = (if Config.FirstStepThreshold cfg \<noteq> 0
                           then servoCfg\<lparr>FirstUpdate := True,
                                  FirstStepThreshold := Config.FirstStepThreshold cfg\<rparr>
                           else servoCfg);
               p = NewPiServo pkg servoCfg (- freq);
               (maxFreq, p, es) =
                  (case MaxFreqPPB (clk im) c of
                     Inl e \<Rightarrow>
                       (DefaultMaxClockFreqPPB pkg, p,
                        [Log LWarning ''max PHC frequency error: %v''])
                   | Inr maxFreq \<Rightarrow>
                       (maxFreq, SetMaxFreq (servo im) p maxFreq, [CallSetMaxFreq maxFreq]))
           in Inr (NewPiServoFilter pkg p,
                   [Log LDebug ''starting PHC frequency: %v''] @ es @
                   [LogF LDebug ''max PHC frequency: %v'' maxFreq])))"

subsection \<open>RunListener: the two receive loops\<close>

text \<open>
  \<^verbatim>\<open>addr.IP.String()\<close> and \<^verbatim>\<open>timestamp.SockaddrToIP\<close>, over the types of IP
  addresses and of socket addresses.
\<close>

record ('ip, 'sa) netlib =
  IP_String :: "'ip \<Rightarrow> string"
  SockaddrToIP :: "'sa \<Rightarrow> 'ip"

text \<open>\<^verbatim>\<open>cc.inChan <- pkt\<close>, for the client stored under \<open>key\<close>.\<close>

fun chan_send :: "string \<Rightarrow> inPacket \<Rightarrow> (string \<times> Client) list \<Rightarrow> (string \<times> Client) list" where
  "chan_send key pkt [] = []"
| "chan_send key pkt ((k, c) # cs) =
     (if k = key then (k, c\<lparr>inChan := inChan c @ [pkt]\<rparr>) # cs
      else (k, c) # chan_send key pkt cs)"

text \<open>One round of a receive loop goes on to the next read or ends the loop with an error.\<close>

datatype 's step = Continue 's | Exit err

text \<open>
  The general port (320): a read is what \<^verbatim>\<open>ReadFromUDP\<close> returned, the number of
  bytes, the source address or nil and the error or nil, with the buffer as the read left
  it.
\<close>

definition general_round ::
  "('ip, 'sa) netlib \<Rightarrow> nat \<times> 'ip option \<times> err option \<times> 8 word list
     \<Rightarrow> ('p, 'c, 'b) SPTP \<Rightarrow> ('p, 'c, 'b) SPTP step" where
  "general_round net rd s =
     (let (n, addr, e, response) = rd in
      case e of
        Some x \<Rightarrow> Exit x
      | None \<Rightarrow>
          (case addr of
             None \<Rightarrow> Exit (errOther ''received packet on port 320 with nil source address'')
           | Some ip \<Rightarrow>
               (let s1 = emit [Log LDebug ''got packet on port 320, n = %v, addr = %v''] s in
                case map_of (clients s1) (IP_String net ip) of
                  None \<Rightarrow> Continue (emit [Log LWarning ''ignoring packets from server %v''] s1)
                | Some cc \<Rightarrow>
                    Continue (s1\<lparr>clients := chan_send (IP_String net ip)
                                  \<lparr>data = take n response, ts = 0\<rparr> (clients s1)\<rparr>))))"

text \<open>
  The event port (319): a read is what \<^verbatim>\<open>ReadPacketWithRXTimestamp\<close> returned,
  the packet, the socket address of the source, the receive timestamp and the error or
  nil.
\<close>

definition event_round ::
  "('ip, 'sa) netlib \<Rightarrow> 8 word list \<times> 'sa \<times> time \<times> err option
     \<Rightarrow> ('p, 'c, 'b) SPTP \<Rightarrow> ('p, 'c, 'b) SPTP step" where
  "event_round net rd s =
     (let (response, addr, rxtx, e) = rd in
      case e of
        Some x \<Rightarrow> Exit x
      | None \<Rightarrow>
          (let s1 = emit [Log LDebug ''got packet on port 319, addr = %v''] s;
               ip = SockaddrToIP net addr
           in case map_of (clients s1) (IP_String net ip) of
                None \<Rightarrow> Continue (emit [Log LWarning ''ignoring packets from server %v''] s1)
              | Some cc \<Rightarrow>
                  Continue (s1\<lparr>clients := chan_send (IP_String net ip)
                                \<lparr>data = response, ts = rxtx\<rparr> (clients s1)\<rparr>)))"

text \<open>
  The loops, over the reads of a run: the error the goroutine hands to
  \<^verbatim>\<open>doneChan\<close>, or none while it waits for the next read.
\<close>

fun general_receiver ::
  "('ip, 'sa) netlib \<Rightarrow> (nat \<times> 'ip option \<times> err option \<times> 8 word list) list
     \<Rightarrow> ('p, 'c, 'b) SPTP \<Rightarrow> err option \<times> ('p, 'c, 'b) SPTP" where
  "general_receiver net [] s = (None, s)"
| "general_receiver net (rd # rds) s =
     (case general_round net rd s of
        Exit x \<Rightarrow> (Some x, s)
      | Continue s' \<Rightarrow> general_receiver net rds s')"

fun event_receiver ::
  "('ip, 'sa) netlib \<Rightarrow> (8 word list \<times> 'sa \<times> time \<times> err option) list
     \<Rightarrow> ('p, 'c, 'b) SPTP \<Rightarrow> err option \<times> ('p, 'c, 'b) SPTP" where
  "event_receiver net [] s = (None, s)"
| "event_receiver net (rd # rds) s =
     (case event_round net rd s of
        Exit x \<Rightarrow> (Some x, s)
      | Continue s' \<Rightarrow> event_receiver net rds s')"

subsection \<open>Calls that discipline the clock\<close>

text \<open>The events of a servo sample and of a step or an adjustment of the clock.\<close>

fun discipline_call :: "event \<Rightarrow> bool" where
  "discipline_call (CallSample _ _) = True"
| "discipline_call (CallStep _) = True"
| "discipline_call (CallAdjFreqPPB _) = True"
| "discipline_call CallSetSync = True"
| "discipline_call _ = False"

subsection \<open>A small instance\<close>

text \<open>
  A servo that answers every sample with the correction 5 and the state it holds, a clock
  whose step fails and whose state says whether it is the system clock, a backoff that
  counts, and a selection that takes the first candidate; two peers, and a measurement
  with the offset 500.
\<close>

definition example_servo :: "servo_state Servo" where
  "example_servo = \<lparr>SyncInterval = (\<lambda>p x. p), Sample = (\<lambda>p off t. ((5, p), p)),
     SetMaxFreq = (\<lambda>p f. p), MeanFreq = (\<lambda>p. 7)\<rparr>"

definition example_clock :: "bool Clock" where
  "example_clock = \<lparr>AdjFreqPPB = (\<lambda>c f. (None, c)),
     Step = (\<lambda>c d. (Some (errOther ''EPERM''), c)),
     FrequencyPPB = (\<lambda>c. Inr 3), MaxFreqPPB = (\<lambda>c. Inl (errOther ''ENOTSUP'')),
     isSysClock = (\<lambda>c. c), SetSync = (\<lambda>c. (None, c))\<rparr>"

definition example_backoff :: "nat Backoff" where
  "example_backoff = \<lparr>active = (\<lambda>b. 0 < b), backoff_tick = (\<lambda>b. (int (b - 1), b - 1)),
     bump = (\<lambda>b. (int (b + 1), b + 1)), reset = (\<lambda>b. 0)\<rparr>"

definition example_impl :: "(servo_state, bool, nat) impl" where
  "example_impl = \<lparr>servo = example_servo, clk = example_clock, bo = example_backoff,
     bmca = (\<lambda>anns prios. case anns of [] \<Rightarrow> None | x # _ \<Rightarrow> Some x)\<rparr>"

definition example_cfg :: Config where
  "example_cfg = \<lparr>Interval = 1000000000, ExchangeTimeout = 100000000, FirstStepThreshold = 0\<rparr>"

definition example_state :: "servo_state \<Rightarrow> (servo_state, bool, nat) SPTP" where
  "example_state p = \<lparr>pi_servo = p, clock = True, bestGM = [],
     clients = [(''a'', \<lparr>inChan = []\<rparr>), (''b'', \<lparr>inChan = []\<rparr>)],
     priorities = [''a'' \<mapsto> 1, ''b'' \<mapsto> 2], backoff = [''a'' \<mapsto> 0, ''b'' \<mapsto> 3],
     lastTick = 0, trace = []\<rparr>"

definition example_measurement :: "64 word \<Rightarrow> MeasurementResult" where
  "example_measurement g = \<lparr>Delay = 40, Offset = 500, Timestamp = 62135596800000000123,
     Announce = \<lparr>GrandmasterIdentity = g, AnnounceBody = 0\<rparr>\<rparr>"

definition example_ok :: "string \<Rightarrow> 64 word \<Rightarrow> RunResult" where
  "example_ok addr g = \<lparr>Server = addr, Measurement = Some (example_measurement g), Error = None\<rparr>"

definition example_failed :: "string \<Rightarrow> RunResult" where
  "example_failed addr = \<lparr>Server = addr, Measurement = None, Error = Some (errOther ''timeout'')\<rparr>"

definition example_env :: tick_env where
  "example_env = \<lparr>now = 1000, RunOnce = example_failed, range_clients = rev,
     range_results = (\<lambda>xs. xs)\<rparr>"

definition example_env_ok :: tick_env where
  "example_env_ok = \<lparr>now = 1000, RunOnce = (\<lambda>addr. example_ok addr 7), range_clients = rev,
     range_results = (\<lambda>xs. xs)\<rparr>"

fun backoff_call :: "string \<Rightarrow> event \<Rightarrow> bool" where
  "backoff_call addr (CallBackoffReset k) = (k = addr)"
| "backoff_call addr (CallBackoffTick k) = (k = addr)"
| "backoff_call addr (CallBackoffBump k) = (k = addr)"
| "backoff_call addr _ = False"

text \<open>What the visit of an entry does to the backoff of its peer, by the entry's error.\<close>

definition backoff_outcome ::
  "('p, 'c, 'b) impl \<Rightarrow> string \<Rightarrow> RunResult \<Rightarrow> 'b \<Rightarrow> 'b \<times> event list" where
  "backoff_outcome im addr res b =
     (case Error res of
        None \<Rightarrow> (reset (bo im) b, [CallBackoffReset addr])
      | Some e \<Rightarrow>
          if errors_Is e errBackoff then (snd (backoff_tick (bo im) b), [CallBackoffTick addr])
          else (snd (bump (bo im) b), [CallBackoffBump addr]))"

definition example_suppressed :: "string \<Rightarrow> RunResult" where
  "example_suppressed addr = \<lparr>Server = addr, Measurement = None, Error = Some errBackoff\<rparr>"

text \<open>
  An entry the loop over the results takes as a candidate: no error and a measurement; the
  announce and the grandmaster identity of its measurement.
\<close>

definition usable :: "RunResult \<Rightarrow> bool" where
  "usable res = (Error res = None \<and> Measurement res \<noteq> None)"

definition announce_of :: "RunResult \<Rightarrow> Announce" where
  "announce_of res = Announce (the (Measurement res))"

definition gm_of :: "RunResult \<Rightarrow> ClockIdentity" where
  "gm_of res = GrandmasterIdentity (announce_of res)"



section \<open>Properties\<close>

subsection \<open>What the loops leave alone\<close>

lemma emit_simps [simp]:
  "trace (emit es s) = trace s @ es"
  "pi_servo (emit es s) = pi_servo s"
  "clock (emit es s) = clock s"
  "bestGM (emit es s) = bestGM s"
  "clients (emit es s) = clients s"
  "priorities (emit es s) = priorities s"
  "backoff (emit es s) = backoff s"
  "lastTick (emit es s) = lastTick s"
  by (simp_all add: emit_def)

lemma priority_of_emit [simp]: "priority_of (emit es s) = priority_of s"
  by (simp add: priority_of_def fun_eq_iff)

lemma handleExchangeError_frame:
  assumes "handleExchangeError im addr e s = Inr s'"
  shows "pi_servo s' = pi_servo s \<and> clock s' = clock s \<and> bestGM s' = bestGM s
     \<and> clients s' = clients s \<and> priorities s' = priorities s \<and> lastTick s' = lastTick s
     \<and> (\<exists>es. trace s' = trace s @ es \<and> filter discipline_call es = [])"
  using assms
  by (auto simp: handleExchangeError_def Let_def split: if_splits option.splits prod.splits)

lemma visit_frame:
  assumes "visit im entry (a, s) = Inr (a', s')"
  shows "pi_servo s' = pi_servo s \<and> clock s' = clock s \<and> bestGM s' = bestGM s
     \<and> clients s' = clients s \<and> priorities s' = priorities s \<and> lastTick s' = lastTick s
     \<and> (\<exists>es. trace s' = trace s @ es \<and> filter discipline_call es = [])"
  using assms
  by (auto simp: visit_def Let_def split: if_splits option.splits prod.splits sum.splits
      dest!: handleExchangeError_frame)

lemma results_loop_frame:
  assumes "results_loop im results (a, s) = Inr (a', s')"
  shows "pi_servo s' = pi_servo s \<and> clock s' = clock s \<and> bestGM s' = bestGM s
     \<and> clients s' = clients s \<and> priorities s' = priorities s \<and> lastTick s' = lastTick s
     \<and> (\<exists>es. trace s' = trace s @ es \<and> filter discipline_call es = [])"
  using assms
proof (induction results arbitrary: a s)
  case Nil
  then show ?case by simp
next
  case (Cons entry rest)
  from Cons.prems obtain a1 s1 where v: "visit im entry (a, s) = Inr (a1, s1)"
    and r: "results_loop im rest (a1, s1) = Inr (a', s')"
    by (auto split: sum.splits)
  from visit_frame[OF v] Cons.IH[OF r] show ?case by auto
qed

lemma fanout_frame:
  assumes "fanout im cfg env cs (rs, s) = Inr (rs', s')"
  shows "pi_servo s' = pi_servo s \<and> clock s' = clock s \<and> bestGM s' = bestGM s
     \<and> clients s' = clients s \<and> priorities s' = priorities s \<and> lastTick s' = lastTick s
     \<and> backoff s' = backoff s
     \<and> (\<exists>es. trace s' = trace s @ es \<and> filter discipline_call es = [])"
  using assms
proof (induction cs arbitrary: rs s)
  case Nil
  then show ?case by simp
next
  case (Cons entry rest)
  obtain addr c where e: "entry = (addr, c)" by (cases entry)
  from Cons.prems e obtain b where b: "backoff s addr = Some b"
    by (auto split: option.splits)
  show ?case
  proof (cases "active (bo im) b")
    case True
    with Cons.prems e b Cons.IH show ?thesis by auto
  next
    case False
    with Cons.prems e b
    have "fanout im cfg env rest (rs @ [(addr, RunOnce env addr)],
            emit [Spawn addr (ExchangeTimeout cfg)] s) = Inr (rs', s')"
      by simp
    from Cons.IH[OF this] show ?thesis by auto
  qed
qed

lemma tick_duration_frame:
  "pi_servo (tick_duration cfg t s) = pi_servo s \<and> clock (tick_duration cfg t s) = clock s
   \<and> bestGM (tick_duration cfg t s) = bestGM s
   \<and> (\<exists>es. trace (tick_duration cfg t s) = trace s @ es \<and> filter discipline_call es = [])"
  by (simp add: tick_duration_def Let_def)


lemmas example_defs = example_impl_def example_servo_def example_clock_def example_backoff_def
  example_cfg_def example_state_def example_env_def example_failed_def example_ok_def
  example_measurement_def


lemma discipline_jump:
  assumes "Sample (servo im) (pi_servo s) (Offset bm) (UnixNano (Timestamp bm))
             = ((freqAdj, StateJump), p')"
  shows "\<exists>es. trace (discipline im bm s) = trace s @ es
     \<and> filter discipline_call es
         = [CallSample (Offset bm) (UnixNano (Timestamp bm)), CallStep (- Offset bm)]
     \<and> pi_servo (discipline im bm s) = p'
     \<and> bestGM (discipline im bm s) = bestGM s
     \<and> clock (discipline im bm s) = snd (Step (clk im) (clock s) (- Offset bm))
     \<and> (fst (Step (clk im) (clock s) (- Offset bm)) \<noteq> None
          \<longrightarrow> Log LError ''failed to step freq by %v: %v'' \<in> set es)"
  using assms by (simp add: discipline_def Let_def split: prod.splits)

lemma discipline_locked:
  assumes "Sample (servo im) (pi_servo s) (Offset bm) (UnixNano (Timestamp bm))
             = ((freqAdj, StateLocked), p')"
  shows "\<exists>es. trace (discipline im bm s) = trace s @ es
     \<and> filter discipline_call es
         = [CallSample (Offset bm) (UnixNano (Timestamp bm)), CallAdjFreqPPB (- freqAdj)]
           @ (if isSysClock (clk im) (snd (AdjFreqPPB (clk im) (clock s) (- freqAdj)))
              then [CallSetSync] else [])
     \<and> pi_servo (discipline im bm s) = p'
     \<and> bestGM (discipline im bm s) = bestGM s
     \<and> clock (discipline im bm s)
         = (let c = snd (AdjFreqPPB (clk im) (clock s) (- freqAdj))
            in if isSysClock (clk im) c then snd (SetSync (clk im) c) else c)
     \<and> (fst (AdjFreqPPB (clk im) (clock s) (- freqAdj)) \<noteq> None
          \<longrightarrow> Log LError ''failed to adjust freq to %v: %v'' \<in> set es)"
  using assms by (simp add: discipline_def Let_def split: prod.splits)

lemma processResults_winner:
  assumes loop: "results_loop im results
                   (acc0, (tick_duration cfg t0 s1)\<lparr>lastTick := t0\<rparr>) = Inr (a, s2)"
    and best: "bmca im (announces a) (localPrioMap a) = Some best"
    and addr: "idsToClients a (GrandmasterIdentity best) = Some bestAddr"
    and res: "map_of results bestAddr = Some r"
    and bm: "Measurement r = Some bm"
  shows "\<exists>s5 e0. processResults im cfg t0 results s1 = Inr (discipline im bm s5)
           \<and> trace s5 = trace s1 @ e0 \<and> filter discipline_call e0 = []
           \<and> pi_servo s5 = pi_servo s1 \<and> clock s5 = clock s1 \<and> bestGM s5 = bestAddr"
proof -
  let ?s3 = "emit [SetCounter ''ptp.sptp.gms.total'' (word_of_nat (length results)),
                   SetCounter ''ptp.sptp.gms.available_pct''
                     (available_pct (gmsAvailable a) (length results))] s2"
  let ?s4 = "if bestGM ?s3 \<noteq> bestAddr
             then (emit [Log LWarning ''new best master selected: %q (%s)''] ?s3)
                    \<lparr>bestGM := bestAddr\<rparr>
             else ?s3"
  let ?s5 = "emit [Log LDebug ''best master %q (%s)''] ?s4"
  have p: "processResults im cfg t0 results s1 = Inr (discipline im bm ?s5)"
    using loop best addr res bm by (simp add: processResults_def Let_def)
  from tick_duration_frame[of cfg t0 s1] obtain e2 where
    d: "trace (tick_duration cfg t0 s1) = trace s1 @ e2" "filter discipline_call e2 = []"
       "pi_servo (tick_duration cfg t0 s1) = pi_servo s1"
       "clock (tick_duration cfg t0 s1) = clock s1"
    by auto
  from results_loop_frame[OF loop] obtain e3 where
    l: "pi_servo s2 = pi_servo s1" "clock s2 = clock s1"
       "trace s2 = trace s1 @ e2 @ e3" "filter discipline_call e3 = []"
    using d by auto
  have "\<exists>e0. trace ?s5 = trace s1 @ e0 \<and> filter discipline_call e0 = []"
    using l d by (cases "bestGM s2 = bestAddr") simp_all
  moreover have "pi_servo ?s5 = pi_servo s1 \<and> clock ?s5 = clock s1 \<and> bestGM ?s5 = bestAddr"
    using l by simp
  ultimately show ?thesis using p by blast
qed

text \<open>
  C1. On a tick with a winner (the peer \<^verbatim>\<open>bestAddr\<close> that \<^verbatim>\<open>idsToClients\<close> gives
  for the announce \<^verbatim>\<open>bmca\<close> returned, with the measurement \<open>bm\<close>), the servo is
  sampled with the winner's offset and timestamp and the servo's state decides: on Jump the
  only call to the clock is a step by the negated offset; on Locked it is a frequency
  adjustment by the negated correction, followed by \<^verbatim>\<open>SetSync\<close> exactly when the clock
  is the system clock. A failing step or adjustment is logged as an error, the tick returns
  normally and the loop goes on to the next round.
\<close>

theorem winner_disciplines_clock:
  assumes fan: "fanout im cfg env (range_clients env (clients s)) ([], s) = Inr (results, s1)"
    and loop: "results_loop im (range_results env results)
                 (acc0, (tick_duration cfg (now env) s1)\<lparr>lastTick := now env\<rparr>) = Inr (a, s2)"
    and best: "bmca im (announces a) (localPrioMap a) = Some best"
    and addr: "idsToClients a (GrandmasterIdentity best) = Some bestAddr"
    and res: "map_of (range_results env results) bestAddr = Some r"
    and bm: "Measurement r = Some bm"
    and sample: "Sample (servo im) (pi_servo s) (Offset bm) (UnixNano (Timestamp bm))
                   = ((freqAdj, st), p')"
    and due: "deadline \<le> t"
  shows "\<exists>s' es. tick im cfg env s = Inr s' \<and> trace s' = trace s @ es
           \<and> bestGM s' = bestAddr \<and> pi_servo s' = p'
           \<and> (st = StateJump \<longrightarrow>
                filter discipline_call es
                  = [CallSample (Offset bm) (UnixNano (Timestamp bm)), CallStep (- Offset bm)]
                \<and> clock s' = snd (Step (clk im) (clock s) (- Offset bm))
                \<and> (fst (Step (clk im) (clock s) (- Offset bm)) \<noteq> None
                     \<longrightarrow> Log LError ''failed to step freq by %v: %v'' \<in> set es))
           \<and> (st = StateLocked \<longrightarrow>
                filter discipline_call es
                  = [CallSample (Offset bm) (UnixNano (Timestamp bm)),
                     CallAdjFreqPPB (- freqAdj)]
                    @ (if isSysClock (clk im) (snd (AdjFreqPPB (clk im) (clock s) (- freqAdj)))
                       then [CallSetSync] else [])
                \<and> clock s'
                    = (let c = snd (AdjFreqPPB (clk im) (clock s) (- freqAdj))
                       in if isSysClock (clk im) c then snd (SetSync (clk im) c) else c)
                \<and> (fst (AdjFreqPPB (clk im) (clock s) (- freqAdj)) \<noteq> None
                     \<longrightarrow> Log LError ''failed to adjust freq to %v: %v'' \<in> set es))
           \<and> run_loop im cfg (TimerC t env # evs) deadline s
               = run_loop im cfg evs (t + sint (Interval cfg)) s'"
proof -
  from fanout_frame[OF fan] obtain e1 where
    f: "pi_servo s1 = pi_servo s" "clock s1 = clock s" "trace s1 = trace s @ e1"
       "filter discipline_call e1 = []" by auto
  from processResults_winner[OF loop best addr res bm] obtain s5 e0 where
    p: "processResults im cfg (now env) (range_results env results) s1
          = Inr (discipline im bm s5)"
    and s5: "trace s5 = trace s1 @ e0" "filter discipline_call e0 = []"
       "pi_servo s5 = pi_servo s1" "clock s5 = clock s1" "bestGM s5 = bestAddr"
    by blast
  let ?s' = "discipline im bm s5"
  have t: "tick im cfg env s = Inr ?s'"
    using fan p by (simp add: tick_def)
  have smp: "Sample (servo im) (pi_servo s5) (Offset bm) (UnixNano (Timestamp bm))
               = ((freqAdj, st), p')"
    using sample s5 f by simp
  have run: "run_loop im cfg (TimerC t env # evs) deadline s
               = run_loop im cfg evs (t + sint (Interval cfg)) ?s'"
    using due t by simp
  have base: "\<exists>e. trace ?s' = trace s5 @ e \<and> pi_servo ?s' = p' \<and> bestGM ?s' = bestGM s5"
    using smp by (cases st) (simp_all add: discipline_def Let_def split: prod.splits)
  then obtain e where e: "trace ?s' = trace s5 @ e" "pi_servo ?s' = p'" "bestGM ?s' = bestGM s5"
    by blast
  have tr: "trace ?s' = trace s @ (e1 @ e0 @ e)"
    using e s5 f by simp
  have fl: "filter discipline_call (e1 @ e0 @ e) = filter discipline_call e"
    using s5 f by simp
  have jump: "st = StateJump \<Longrightarrow>
                filter discipline_call e
                  = [CallSample (Offset bm) (UnixNano (Timestamp bm)), CallStep (- Offset bm)]
                \<and> clock ?s' = snd (Step (clk im) (clock s) (- Offset bm))
                \<and> (fst (Step (clk im) (clock s) (- Offset bm)) \<noteq> None
                     \<longrightarrow> Log LError ''failed to step freq by %v: %v'' \<in> set e)"
    using discipline_jump[of im s5 bm freqAdj p'] smp e s5 f by auto
  have locked: "st = StateLocked \<Longrightarrow>
                filter discipline_call e
                  = [CallSample (Offset bm) (UnixNano (Timestamp bm)),
                     CallAdjFreqPPB (- freqAdj)]
                    @ (if isSysClock (clk im) (snd (AdjFreqPPB (clk im) (clock s) (- freqAdj)))
                       then [CallSetSync] else [])
                \<and> clock ?s'
                    = (let c = snd (AdjFreqPPB (clk im) (clock s) (- freqAdj))
                       in if isSysClock (clk im) c then snd (SetSync (clk im) c) else c)
                \<and> (fst (AdjFreqPPB (clk im) (clock s) (- freqAdj)) \<noteq> None
                     \<longrightarrow> Log LError ''failed to adjust freq to %v: %v'' \<in> set e)"
    using discipline_locked[of im s5 bm freqAdj p'] smp e s5 f by auto
  show ?thesis
    apply (rule exI[of _ ?s'])
    apply (rule exI[of _ "e1 @ e0 @ e"])
    using t tr fl jump locked run e s5 by auto
qed

lemmas example_eval = example_defs example_env_ok_def emit_def tick_duration_def IsZero_def
  visit_def handleExchangeError_def priority_of_def acc0_def

theorem winner_disciplines_clock_witness:
  "(\<exists>s' es. tick example_impl example_cfg example_env_ok (example_state StateJump) = Inr s'
      \<and> trace s' = es \<and> bestGM s' = ''a''
      \<and> filter discipline_call es = [CallSample 500 123, CallStep (- 500)]
      \<and> Log LError ''failed to step freq by %v: %v'' \<in> set es
      \<and> run_loop example_impl example_cfg [TimerC 5 example_env_ok] 0 (example_state StateJump)
           = Waiting 1000000005 s')
   \<and> (\<exists>s' es. tick example_impl example_cfg example_env_ok (example_state StateLocked) = Inr s'
      \<and> trace s' = es \<and> bestGM s' = ''a''
      \<and> filter discipline_call es = [CallSample 500 123, CallAdjFreqPPB (- 5), CallSetSync]
      \<and> run_loop example_impl example_cfg [TimerC 5 example_env_ok] 0 (example_state StateLocked)
           = Waiting 1000000005 s')"
proof -
  have due: "(0::int) \<le> 5" by simp
  have w: "\<exists>s' es. tick example_impl example_cfg example_env_ok (example_state p) = Inr s'
      \<and> trace s' = es \<and> bestGM s' = ''a''
      \<and> (p = StateJump \<longrightarrow> filter discipline_call es = [CallSample 500 123, CallStep (- 500)]
            \<and> Log LError ''failed to step freq by %v: %v'' \<in> set es)
      \<and> (p = StateLocked \<longrightarrow>
            filter discipline_call es = [CallSample 500 123, CallAdjFreqPPB (- 5), CallSetSync])
      \<and> run_loop example_impl example_cfg [TimerC 5 example_env_ok] 0 (example_state p)
           = Waiting 1000000005 s'" for p
  proof -
    let ?s = "example_state p"
    let ?F = "fanout example_impl example_cfg example_env_ok
                (range_clients example_env_ok (clients ?s)) ([], ?s)"
    have fan: "?F = Inr (fst (projr ?F), snd (projr ?F))"
      by (simp add: example_eval)
    let ?R = "range_results example_env_ok (fst (projr ?F))"
    let ?L = "results_loop example_impl ?R
                (acc0, (tick_duration example_cfg (now example_env_ok) (snd (projr ?F)))
                         \<lparr>lastTick := now example_env_ok\<rparr>)"
    have loop: "?L = Inr (fst (projr ?L), snd (projr ?L))"
      by (simp add: example_eval)
    have best: "bmca example_impl (announces (fst (projr ?L))) (localPrioMap (fst (projr ?L)))
                  = Some (Announce (example_measurement 7))"
      by (simp add: example_eval)
    have addr: "idsToClients (fst (projr ?L))
                  (GrandmasterIdentity (Announce (example_measurement 7))) = Some ''a''"
      by (simp add: example_eval)
    have res: "map_of ?R ''a'' = Some (example_ok ''a'' 7)"
      by (simp add: example_eval)
    have bm: "Measurement (example_ok ''a'' 7) = Some (example_measurement 7)"
      by (simp add: example_eval)
    have sample: "Sample (servo example_impl) (pi_servo ?s) (Offset (example_measurement 7))
                    (UnixNano (Timestamp (example_measurement 7))) = ((5, p), p)"
      by (simp add: example_eval)
    from winner_disciplines_clock[OF fan loop best addr res bm sample due, where evs = "[]"]
    show ?thesis
      by (auto simp: example_defs UnixNano_def)
  qed
  from w[of StateJump] w[of StateLocked] show ?thesis by simp
qed

lemma visit_other_backoff:
  assumes "visit im (k, r) (a, s) = Inr (a', s')" and "k \<noteq> addr"
  shows "backoff s' addr = backoff s addr
     \<and> (\<exists>es. trace s' = trace s @ es \<and> filter (backoff_call addr) es = [])"
  using assms
  by (auto simp: visit_def handleExchangeError_def Let_def
      split: if_splits option.splits prod.splits sum.splits)

lemma results_loop_other_backoff:
  assumes "results_loop im results (a, s) = Inr (a', s')" and "addr \<notin> fst ` set results"
  shows "backoff s' addr = backoff s addr
     \<and> (\<exists>es. trace s' = trace s @ es \<and> filter (backoff_call addr) es = [])"
  using assms
proof (induction results arbitrary: a s)
  case Nil
  then show ?case by simp
next
  case (Cons entry rest)
  obtain k r where e: "entry = (k, r)" by (cases entry)
  from Cons.prems e obtain a1 s1 where v: "visit im (k, r) (a, s) = Inr (a1, s1)"
    and l: "results_loop im rest (a1, s1) = Inr (a', s')"
    by (auto split: sum.splits)
  from Cons.prems e have ne: "k \<noteq> addr" and ni: "addr \<notin> fst ` set rest" by auto
  from visit_other_backoff[OF v ne] obtain e1 where
    v1: "backoff s1 addr = backoff s addr" "trace s1 = trace s @ e1"
        "filter (backoff_call addr) e1 = []" by blast
  from Cons.IH[OF l ni] obtain e2 where
    l1: "backoff s' addr = backoff s1 addr" "trace s' = trace s1 @ e2"
        "filter (backoff_call addr) e2 = []" by blast
  have "trace s' = trace s @ (e1 @ e2) \<and> filter (backoff_call addr) (e1 @ e2) = []"
    using v1 l1 by simp
  then show ?case using v1 l1 by metis
qed

lemma visit_same_backoff:
  assumes "visit im (addr, res) (a, s) = Inr (a', s')" and "backoff s addr = Some b"
  shows "backoff s' addr = Some (fst (backoff_outcome im addr res b))
     \<and> (\<exists>es. trace s' = trace s @ es
           \<and> filter (backoff_call addr) es = snd (backoff_outcome im addr res b))"
  using assms
  by (auto simp: visit_def handleExchangeError_def backoff_outcome_def Let_def
      split: if_splits option.splits prod.splits sum.splits)

lemma results_loop_backoff:
  assumes "results_loop im results (a, s) = Inr (a', s')"
    and "distinct (map fst results)" and "(addr, res) \<in> set results"
    and "backoff s addr = Some b"
  shows "backoff s' addr = Some (fst (backoff_outcome im addr res b))
     \<and> (\<exists>es. trace s' = trace s @ es
           \<and> filter (backoff_call addr) es = snd (backoff_outcome im addr res b))"
  using assms
proof (induction results arbitrary: a s)
  case Nil
  then show ?case by simp
next
  case (Cons entry rest)
  obtain k r where e: "entry = (k, r)" by (cases entry)
  from Cons.prems e obtain a1 s1 where v: "visit im (k, r) (a, s) = Inr (a1, s1)"
    and l: "results_loop im rest (a1, s1) = Inr (a', s')"
    by (auto split: sum.splits)
  show ?case
  proof (cases "k = addr")
    case True
    with Cons.prems e have r: "r = res" and notin: "addr \<notin> fst ` set rest"
      by (auto simp: image_iff)
    from visit_same_backoff[OF v[unfolded True r] Cons.prems(4)] obtain e1 where
      v1: "backoff s1 addr = Some (fst (backoff_outcome im addr res b))"
          "trace s1 = trace s @ e1"
          "filter (backoff_call addr) e1 = snd (backoff_outcome im addr res b)" by blast
    from results_loop_other_backoff[OF l notin] obtain e2 where
      l1: "backoff s' addr = backoff s1 addr" "trace s' = trace s1 @ e2"
          "filter (backoff_call addr) e2 = []" by blast
    have "trace s' = trace s @ (e1 @ e2)
          \<and> filter (backoff_call addr) (e1 @ e2) = snd (backoff_outcome im addr res b)"
      using v1 l1 by simp
    then show ?thesis using v1 l1 by metis
  next
    case False
    with Cons.prems e have m: "(addr, res) \<in> set rest" and d: "distinct (map fst rest)"
      by auto
    from visit_other_backoff[OF v False] obtain e1 where
      v1: "backoff s1 addr = backoff s addr" "trace s1 = trace s @ e1"
          "filter (backoff_call addr) e1 = []" by blast
    from v1 Cons.prems(4) have b1: "backoff s1 addr = Some b" by simp
    from Cons.IH[OF l d m b1] obtain e2 where
      l1: "backoff s' addr = Some (fst (backoff_outcome im addr res b))"
          "trace s' = trace s1 @ e2"
          "filter (backoff_call addr) e2 = snd (backoff_outcome im addr res b)" by blast
    have "trace s' = trace s @ (e1 @ e2)
          \<and> filter (backoff_call addr) (e1 @ e2) = snd (backoff_outcome im addr res b)"
      using v1 l1 by simp
    then show ?thesis using l1 by metis
  qed
qed

lemma discipline_backoff:
  "backoff (discipline im bm s) = backoff s
   \<and> (\<exists>es. trace (discipline im bm s) = trace s @ es \<and> filter (backoff_call addr) es = [])"
  by (cases "snd (fst (Sample (servo im) (pi_servo s) (Offset bm) (UnixNano (Timestamp bm))))")
     (auto simp: discipline_def Let_def split: prod.splits)

lemma tick_duration_backoff:
  "backoff (tick_duration cfg t s) = backoff s
   \<and> (\<exists>es. trace (tick_duration cfg t s) = trace s @ es \<and> filter (backoff_call addr) es = [])"
  by (simp add: tick_duration_def Let_def)

lemma processResults_backoff:
  assumes "processResults im cfg t results s = Inr s'"
  shows "\<exists>a s2 e1 e3. results_loop im results
                  (acc0, (tick_duration cfg t s)\<lparr>lastTick := t\<rparr>) = Inr (a, s2)
           \<and> backoff s' = backoff s2 
           \<and> trace (tick_duration cfg t s) = trace s @ e1 \<and> filter (backoff_call addr) e1 = []
           \<and> trace s' = trace s2 @ e3 \<and> filter (backoff_call addr) e3 = []"
proof -
  from assms obtain a s2 where
    loop: "results_loop im results (acc0, (tick_duration cfg t s)\<lparr>lastTick := t\<rparr>) = Inr (a, s2)"
    by (auto simp: processResults_def Let_def split: sum.splits)
  from tick_duration_backoff[of cfg t s addr] obtain e1 where
    e1: "trace (tick_duration cfg t s) = trace s @ e1" "filter (backoff_call addr) e1 = []"
    by blast
  have "backoff s' = backoff s2 \<and> (\<exists>e3. trace s' = trace s2 @ e3 \<and> filter (backoff_call addr) e3 = [])"
  proof (cases "bmca im (announces a) (localPrioMap a)")
    case None
    with assms loop show ?thesis by (auto simp: processResults_def Let_def)
  next
    case (Some best)
    with assms loop obtain bm s5 e5 where
      "s' = discipline im bm s5" "backoff s5 = backoff s2" "trace s5 = trace s2 @ e5"
      "filter (backoff_call addr) e5 = []"
      by (auto simp: processResults_def Let_def split: option.splits if_splits)
    moreover from discipline_backoff[of im bm s5 addr] obtain e6 where
      "backoff (discipline im bm s5) = backoff s5" "trace (discipline im bm s5) = trace s5 @ e6"
      "filter (backoff_call addr) e6 = []" by blast
    ultimately have "backoff s' = backoff s2 \<and> trace s' = trace s2 @ (e5 @ e6)
       \<and> filter (backoff_call addr) (e5 @ e6) = []" by simp
    then show ?thesis by blast
  qed
  with loop e1 show ?thesis by blast
qed

text \<open>
  C3. Aggregation over a result map (its keys distinct) updates the backoff of every peer in
  it once: an entry without error resets the peer's backoff; an entry whose error is the
  sentinel \<^verbatim>\<open>errBackoff\<close> only ticks it, and handleExchangeError then logs at debug level
  only, no error; any other error bumps it.
\<close>

theorem aggregation_updates_backoff:
  assumes run: "processResults im cfg t results s = Inr s'"
    and dist: "distinct (map fst results)"
    and mem: "(addr, res) \<in> set results"
    and b: "backoff s addr = Some b"
  shows "\<exists>es. trace s' = trace s @ es
     \<and> (Error res = None \<longrightarrow>
           backoff s' addr = Some (reset (bo im) b)
           \<and> filter (backoff_call addr) es = [CallBackoffReset addr])
     \<and> (\<forall>e. Error res = Some e \<and> errors_Is e errBackoff \<longrightarrow>
           backoff s' addr = Some (snd (backoff_tick (bo im) b))
           \<and> filter (backoff_call addr) es = [CallBackoffTick addr]
           \<and> (\<forall>s0 b0. backoff s0 addr = Some b0 \<longrightarrow>
                 (\<exists>s1. handleExchangeError im addr e s0 = Inr s1
                    \<and> trace s1 = trace s0 @ [CallBackoffTick addr,
                                             Log LDebug ''backoff %s: %d seconds''])))
     \<and> (\<forall>e. Error res = Some e \<and> \<not> errors_Is e errBackoff \<longrightarrow>
           backoff s' addr = Some (snd (bump (bo im) b))
           \<and> filter (backoff_call addr) es = [CallBackoffBump addr])"
proof -
  from processResults_backoff[OF run, of addr] obtain a s2 e1 e3 where
    loop: "results_loop im results (acc0, (tick_duration cfg t s)\<lparr>lastTick := t\<rparr>) = Inr (a, s2)"
    and p: "backoff s' = backoff s2" "trace (tick_duration cfg t s) = trace s @ e1"
      "filter (backoff_call addr) e1 = []" "trace s' = trace s2 @ e3"
      "filter (backoff_call addr) e3 = []"
    by blast
  have b1: "backoff ((tick_duration cfg t s)\<lparr>lastTick := t\<rparr>) addr = Some b"
    using b tick_duration_backoff[of cfg t s addr] by simp
  from results_loop_backoff[OF loop dist mem b1] obtain e2 where
    l: "backoff s2 addr = Some (fst (backoff_outcome im addr res b))"
       "trace s2 = trace s @ e1 @ e2"
       "filter (backoff_call addr) e2 = snd (backoff_outcome im addr res b)"
    using p by auto
  have tr: "trace s' = trace s @ (e1 @ e2 @ e3)" using l p by simp
  have fl: "filter (backoff_call addr) (e1 @ e2 @ e3) = snd (backoff_outcome im addr res b)"
    using l p by simp
  have h: "\<forall>e s0 b0. errors_Is e errBackoff \<and> backoff s0 addr = Some b0 \<longrightarrow>
                 (\<exists>s1. handleExchangeError im addr e s0 = Inr s1
                    \<and> trace s1 = trace s0 @ [CallBackoffTick addr,
                                             Log LDebug ''backoff %s: %d seconds''])"
    by (auto simp: handleExchangeError_def split: prod.splits)
  show ?thesis
    apply (rule exI[of _ "e1 @ e2 @ e3"])
    using tr fl l(1) p(1) h by (auto simp: backoff_outcome_def)
qed

theorem aggregation_updates_backoff_witness:
  "(\<exists>s'. processResults example_impl example_cfg 1000
            [(''b'', example_suppressed ''b''), (''a'', example_ok ''a'' 7)]
            (example_state StateLocked) = Inr s'
      \<and> backoff s' ''b'' = Some 2
      \<and> filter (backoff_call ''b'') (trace s') = [CallBackoffTick ''b'']
      \<and> backoff s' ''a'' = Some 0
      \<and> filter (backoff_call ''a'') (trace s') = [CallBackoffReset ''a''])
   \<and> (\<exists>s'. processResults example_impl example_cfg 1000 [(''a'', example_failed ''a'')]
            (example_state StateLocked) = Inr s'
      \<and> backoff s' ''a'' = Some 1
      \<and> filter (backoff_call ''a'') (trace s') = [CallBackoffBump ''a''])"
proof -
  let ?s = "example_state StateLocked"
  let ?R1 = "[(''b'', example_suppressed ''b''), (''a'', example_ok ''a'' 7)]"
  let ?R2 = "[(''a'', example_failed ''a'')]"
  let ?P1 = "processResults example_impl example_cfg 1000 ?R1 ?s"
  let ?P2 = "processResults example_impl example_cfg 1000 ?R2 ?s"
  have run1: "?P1 = Inr (projr ?P1)"
    by (simp add: processResults_def example_eval example_suppressed_def)
  have run2: "?P2 = Inr (projr ?P2)"
    by (simp add: processResults_def example_eval)
  have d1: "distinct (map fst ?R1)" and d2: "distinct (map fst ?R2)" by simp_all
  have ba: "backoff ?s ''a'' = Some 0" and bb: "backoff ?s ''b'' = Some 3"
    by (simp_all add: example_defs)
  have m1: "(''b'', example_suppressed ''b'') \<in> set ?R1"
    and m2: "(''a'', example_ok ''a'' 7) \<in> set ?R1"
    and m3: "(''a'', example_failed ''a'') \<in> set ?R2" by simp_all
  have tr: "trace ?s = []" by (simp add: example_defs)
  from aggregation_updates_backoff[OF run1 d1 m1 bb]
  have 1: "backoff (projr ?P1) ''b'' = Some 2
           \<and> filter (backoff_call ''b'') (trace (projr ?P1)) = [CallBackoffTick ''b'']"
    unfolding tr by (auto simp: example_suppressed_def example_defs)
  from aggregation_updates_backoff[OF run1 d1 m2 ba]
  have 2: "backoff (projr ?P1) ''a'' = Some 0
           \<and> filter (backoff_call ''a'') (trace (projr ?P1)) = [CallBackoffReset ''a'']"
    unfolding tr by (auto simp: example_defs)
  from aggregation_updates_backoff[OF run2 d2 m3 ba]
  have 3: "backoff (projr ?P2) ''a'' = Some 1
           \<and> filter (backoff_call ''a'') (trace (projr ?P2)) = [CallBackoffBump ''a'']"
    unfolding tr by (auto simp: example_defs)
  from run1 run2 1 2 3 show ?thesis by metis
qed

lemma visit_acc:
  assumes "visit im (addr, res) (a, s) = Inr (a', s')"
  shows "priority_of s' = priority_of s
     \<and> a' = (if usable res
             then \<lparr>gmsAvailable = gmsAvailable a + 1,
                   announces = announces a @ [announce_of res],
                   idsToClients = (idsToClients a)(gm_of res \<mapsto> addr),
                   localPrioMap = (localPrioMap a)(gm_of res \<mapsto> priority_of s addr)\<rparr>
             else a)"
  using assms
  by (auto simp: visit_def handleExchangeError_def Let_def usable_def announce_of_def gm_of_def
      priority_of_def fun_eq_iff
      split: if_splits option.splits prod.splits sum.splits)

lemma results_loop_announces:
  assumes "results_loop im results (a, s) = Inr (a', s')"
  shows "announces a' = announces a @ map (announce_of \<circ> snd) (filter (usable \<circ> snd) results)
     \<and> gmsAvailable a' = gmsAvailable a + length (filter (usable \<circ> snd) results)"
  using assms
proof (induction results arbitrary: a s)
  case Nil
  then show ?case by simp
next
  case (Cons entry rest)
  obtain k r where e: "entry = (k, r)" by (cases entry)
  from Cons.prems e obtain a1 s1 where v: "visit im (k, r) (a, s) = Inr (a1, s1)"
    and l: "results_loop im rest (a1, s1) = Inr (a', s')"
    by (auto split: sum.splits)
  from visit_acc[OF v] Cons.IH[OF l] e show ?case by (cases "usable r") simp_all
qed

lemma results_loop_localPrioMap:
  assumes "results_loop im results (a, s) = Inr (a', s')"
    and "\<forall>(addr, res) \<in> set results. usable res \<and> gm_of res = g \<longrightarrow> priority_of s addr = n"
  shows "localPrioMap a' g
           = (if \<exists>(addr, res) \<in> set results. usable res \<and> gm_of res = g then Some n
              else localPrioMap a g)"
  using assms
proof (induction results arbitrary: a s)
  case Nil
  then show ?case by simp
next
  case (Cons entry rest)
  obtain k r where e: "entry = (k, r)" by (cases entry)
  from Cons.prems e obtain a1 s1 where v: "visit im (k, r) (a, s) = Inr (a1, s1)"
    and l: "results_loop im rest (a1, s1) = Inr (a', s')"
    by (auto split: sum.splits)
  from visit_acc[OF v] have p: "priority_of s1 = priority_of s" by simp
  from Cons.prems(2) p
  have h: "\<forall>(addr, res) \<in> set rest. usable res \<and> gm_of res = g \<longrightarrow> priority_of s1 addr = n"
    by auto
  from Cons.prems(2) e have k: "usable r \<and> gm_of r = g \<longrightarrow> priority_of s k = n" by auto
  from Cons.IH[OF l h] visit_acc[OF v] e k show ?case
    by (cases "usable r") auto
qed

text \<open>
  C2, as the code has it. The accumulators with which processResults calls \<^verbatim>\<open>bmca\<close>
  are those of the loop over the results, started empty. The candidates are exactly the
  announces of the entries with no error and a measurement, in the order of the visits. The
  priority map is keyed by grandmaster identity, so the identity of such an entry is mapped
  to the entry's own configured priority when every usable entry with the same identity
  has that same priority (in particular when the identities are distinct).
\<close>

theorem bmca_candidates:
  assumes "results_loop im results (acc0, s) = Inr (a, s')"
  shows "announces a = map (announce_of \<circ> snd) (filter (usable \<circ> snd) results)
     \<and> (\<forall>addr res. (addr, res) \<in> set results \<and> usable res
            \<and> (\<forall>addr' res'. (addr', res') \<in> set results \<and> usable res'
                    \<and> gm_of res' = gm_of res \<longrightarrow> priority_of s addr' = priority_of s addr)
          \<longrightarrow> localPrioMap a (gm_of res) = Some (priority_of s addr))
     \<and> (\<forall>g. g \<notin> gm_of ` snd ` {e \<in> set results. usable (snd e)} \<longrightarrow> localPrioMap a g = None)"
proof -
  have 1: "announces a = map (announce_of \<circ> snd) (filter (usable \<circ> snd) results)"
    using results_loop_announces[OF assms] by (simp add: acc0_def)
  have 2: "localPrioMap a (gm_of res) = Some (priority_of s addr)"
    if m: "(addr, res) \<in> set results" and u: "usable res"
      and same: "\<forall>addr' res'. (addr', res') \<in> set results \<and> usable res'
                    \<and> gm_of res' = gm_of res \<longrightarrow> priority_of s addr' = priority_of s addr"
    for addr res
  proof -
    have h: "\<forall>(addr', res') \<in> set results. usable res' \<and> gm_of res' = gm_of res
               \<longrightarrow> priority_of s addr' = priority_of s addr"
      using same by auto
    have ex: "\<exists>(addr', res') \<in> set results. usable res' \<and> gm_of res' = gm_of res"
      using m u by auto
    from results_loop_localPrioMap[OF assms h] ex show ?thesis by simp
  qed
  have 3: "localPrioMap a g = None"
    if "g \<notin> gm_of ` snd ` {e \<in> set results. usable (snd e)}" for g
  proof -
    have h: "\<forall>(addr', res') \<in> set results. usable res' \<and> gm_of res' = g
               \<longrightarrow> priority_of s addr' = 0"
      using that by force
    have nex: "\<not> (\<exists>(addr', res') \<in> set results. usable res' \<and> gm_of res' = g)"
      using that by force
    from results_loop_localPrioMap[OF assms h] nex show ?thesis by (simp add: acc0_def)
  qed
  from 1 2 3 show ?thesis by blast
qed

lemmas candidate_defs = usable_def announce_of_def gm_of_def

theorem bmca_candidates_witness:
  "(\<exists>a s'. results_loop example_impl
              [(''b'', example_suppressed ''b''), (''a'', example_ok ''a'' 7)]
              (acc0, example_state StateLocked) = Inr (a, s')
      \<and> announces a = [Announce (example_measurement 7)]
      \<and> localPrioMap a 7 = Some 1 \<and> localPrioMap a 8 = None)"
proof -
  let ?R = "[(''b'', example_suppressed ''b''), (''a'', example_ok ''a'' 7)]"
  let ?S = "example_state StateLocked"
  let ?L = "results_loop example_impl ?R (acc0, ?S)"
  have "?L = Inr (fst (projr ?L), snd (projr ?L))"
    by (simp add: example_eval example_suppressed_def)
  then obtain a s' where loop: "?L = Inr (a, s')" by (rule that)
  have u: "usable (example_ok ''a'' 7)" "\<not> usable (example_suppressed ''b'')"
    and g: "gm_of (example_ok ''a'' 7) = 7"
    and n: "announce_of (example_ok ''a'' 7) = Announce (example_measurement 7)"
    by (simp_all add: candidate_defs example_defs example_suppressed_def)
  note c = bmca_candidates[OF loop]
  from c have 1: "announces a = [Announce (example_measurement 7)]"
    using u n by simp
  from c have "(''a'', example_ok ''a'' 7) \<in> set ?R \<and> usable (example_ok ''a'' 7)
      \<and> (\<forall>addr' res'. (addr', res') \<in> set ?R \<and> usable res'
             \<and> gm_of res' = gm_of (example_ok ''a'' 7)
             \<longrightarrow> priority_of ?S addr' = priority_of ?S ''a'')
      \<longrightarrow> localPrioMap a (gm_of (example_ok ''a'' 7)) = Some (priority_of ?S ''a'')"
    by blast
  then have 2: "localPrioMap a 7 = Some 1"
    using u g by (auto simp: priority_of_def example_state_def)
  from c have "8 \<notin> gm_of ` snd ` {e \<in> set ?R. usable (snd e)} \<longrightarrow> localPrioMap a 8 = None"
    by blast
  then have 3: "localPrioMap a 8 = None"
    using u g by auto
  from loop 1 2 3 show ?thesis by blast
qed

theorem bmca_candidates_counterexample:
  "distinct (map fst [(''a'', example_ok ''a'' 7), (''b'', example_ok ''b'' 7)])
   \<and> Error (example_ok ''a'' 7) = None
   \<and> Measurement (example_ok ''a'' 7) = Some (example_measurement 7)
   \<and> GrandmasterIdentity (Announce (example_measurement 7)) = 7
   \<and> priority_of (example_state StateLocked) ''a'' = 1
   \<and> results_loop example_impl [(''a'', example_ok ''a'' 7), (''b'', example_ok ''b'' 7)]
        (acc0, example_state StateLocked)
       = Inr (projr (results_loop example_impl
                [(''a'', example_ok ''a'' 7), (''b'', example_ok ''b'' 7)]
                (acc0, example_state StateLocked)))
   \<and> localPrioMap (fst (projr (results_loop example_impl
                [(''a'', example_ok ''a'' 7), (''b'', example_ok ''b'' 7)]
                (acc0, example_state StateLocked)))) 7 = Some 2
   \<and> localPrioMap (fst (projr (results_loop example_impl
                [(''a'', example_ok ''a'' 7), (''b'', example_ok ''b'' 7)]
                (acc0, example_state StateLocked)))) 7
       \<noteq> Some (priority_of (example_state StateLocked) ''a'')"
  by (simp add: example_eval)







lemma run_loop_append:
  "run_loop im cfg (pre @ evs) d s
     = (case run_loop im cfg pre d s of
          Waiting d' s' \<Rightarrow> run_loop im cfg evs d' s'
        | r \<Rightarrow> r)"
proof (induction pre arbitrary: d s)
  case Nil
  then show ?case by simp
next
  case (Cons ev pre)
  show ?case
  proof (cases ev)
    case (CtxDone e)
    then show ?thesis by simp
  next
    case (TimerC t env)
    then show ?thesis using Cons.IH by (simp split: sum.splits)
  qed
qed

lemma on_cancel_effect:
  "\<exists>es. trace (on_cancel im s) = trace s @ es
     \<and> filter discipline_call es = [CallAdjFreqPPB (- MeanFreq (servo im) (pi_servo s))]
     \<and> clock (on_cancel im s)
         = snd (AdjFreqPPB (clk im) (clock s) (- MeanFreq (servo im) (pi_servo s)))
     \<and> pi_servo (on_cancel im s) = pi_servo s
     \<and> (fst (AdjFreqPPB (clk im) (clock s) (- MeanFreq (servo im) (pi_servo s))) \<noteq> None
          \<longrightarrow> Log LError ''failed to adjust freq to %v: %v'' \<in> set es)"
  by (simp add: on_cancel_def Let_def split: prod.splits)

text \<open>
  C7. When the loop, waiting in \<^verbatim>\<open>select\<close> after any number of rounds, takes the case of
  the cancelled context, it returns the context's error, and between that point and the
  return the only call to the clock or the servo's sampling is one frequency adjustment, by
  the negated mean frequency of the servo.
\<close>

theorem cancel_applies_mean_freq_once:
  assumes "runInternal im cfg start pre s = Waiting d s1"
  shows "\<exists>s' es. runInternal im cfg start (pre @ CtxDone e # rest) s = Returned e s'
     \<and> trace s' = trace s1 @ es
     \<and> filter discipline_call es = [CallAdjFreqPPB (- MeanFreq (servo im) (pi_servo s1))]
     \<and> clock s' = snd (AdjFreqPPB (clk im) (clock s1) (- MeanFreq (servo im) (pi_servo s1)))"
proof -
  have "runInternal im cfg start (pre @ CtxDone e # rest) s = Returned e (on_cancel im s1)"
    using assms by (simp add: runInternal_def Let_def run_loop_append)
  with on_cancel_effect[of im s1] show ?thesis by auto
qed

theorem cancel_applies_mean_freq_once_witness:
  "\<exists>s'. runInternal example_impl example_cfg 0
           [TimerC 5 example_env_ok, CtxDone (errOther ''context canceled''), TimerC 9 example_env]
           (example_state StateLocked)
         = Returned (errOther ''context canceled'') s'
     \<and> filter discipline_call (trace s')
         = [CallSample 500 123, CallAdjFreqPPB (- 5), CallSetSync, CallAdjFreqPPB (- 7)]"
proof -
  let ?S = "example_state StateLocked"
  let ?pre = "[TimerC 5 example_env_ok]"
  have "\<exists>d s1. runInternal example_impl example_cfg 0 ?pre ?S = Waiting d s1
          \<and> filter discipline_call (trace s1) = [CallSample 500 123, CallAdjFreqPPB (- 5), CallSetSync]
          \<and> pi_servo s1 = StateLocked"
    by (simp add: runInternal_def tick_def processResults_def discipline_def example_eval
        UnixNano_def)
  then obtain d s1 where w: "runInternal example_impl example_cfg 0 ?pre ?S = Waiting d s1"
    and f: "filter discipline_call (trace s1) = [CallSample 500 123, CallAdjFreqPPB (- 5), CallSetSync]"
    and p: "pi_servo s1 = StateLocked"
    by blast
  from cancel_applies_mean_freq_once[OF w, of "errOther ''context canceled''"
      "[TimerC 9 example_env]"]
  obtain s' es where
    r: "runInternal example_impl example_cfg 0
          (?pre @ CtxDone (errOther ''context canceled'') # [TimerC 9 example_env]) ?S
          = Returned (errOther ''context canceled'') s'"
    and t: "trace s' = trace s1 @ es"
    and e: "filter discipline_call es
              = [CallAdjFreqPPB (- MeanFreq (servo example_impl) (pi_servo s1))]"
    by blast
  have "filter discipline_call (trace s')
         = [CallSample 500 123, CallAdjFreqPPB (- 5), CallSetSync, CallAdjFreqPPB (- 7)]"
    using t e f p by (simp add: example_impl_def example_servo_def)
  with r show ?thesis by auto
qed












end
